theory Spec2Isabelle
  imports Main
begin

section \<open>JavaScript values and SQL parameters\<close>

text \<open>
  The handlers read fields of JSON-decoded Stripe objects. A field that is missing (or
  reached through an optional chain \<^verbatim>\<open>a?.b\<close> whose head is missing) reads as
  \<^verbatim>\<open>undefined\<close>. Numbers are integers here, so \<^verbatim>\<open>NaN\<close> is not a value of
  the model.
\<close>

datatype jsval = JUndefined | JNull | JBool bool | JNum int | JStr string

fun truthy :: "jsval \<Rightarrow> bool" where
  "truthy JUndefined = False"
| "truthy JNull = False"
| "truthy (JBool b) = b"
| "truthy (JNum n) = (n \<noteq> 0)"
| "truthy (JStr s) = (s \<noteq> [])"

text \<open>The operator \<^verbatim>\<open>a || b\<close>.\<close>

definition js_or :: "jsval \<Rightarrow> jsval \<Rightarrow> jsval" where
  "js_or a b = (if truthy a then a else b)"

text \<open>
  A column value is \<open>None\<close> for SQL NULL and otherwise the JavaScript value that was
  bound. The handlers bind strings; the conversion SQLite applies to a bound number or
  boolean in a TEXT column is not modelled. Every parameter that is bound has passed
  through \<^verbatim>\<open>|| null\<close>, so \<^verbatim>\<open>undefined\<close> does not reach the binding.
\<close>

type_synonym sqlval = "jsval option"

fun bind_param :: "jsval \<Rightarrow> sqlval" where
  "bind_param JNull = None"
| "bind_param JUndefined = None"
| "bind_param v = Some v"

text \<open>\<^verbatim>\<open>COALESCE(a, b)\<close>\<close>

definition coalesce :: "sqlval \<Rightarrow> sqlval \<Rightarrow> sqlval" where
  "coalesce a b = (case a of Some v \<Rightarrow> Some v | None \<Rightarrow> b)"

section \<open>Stripe objects, relay data and payloads\<close>

text \<open>
  The fields of \<^verbatim>\<open>event.data.object\<close> that some handler reads:
  \<^verbatim>\<open>id\<close>, \<^verbatim>\<open>customer_details?.email\<close>, \<^verbatim>\<open>customer_email\<close>,
  \<^verbatim>\<open>payment_status\<close>, the \<^verbatim>\<open>metadata?.\<close> keys,
  \<^verbatim>\<open>last_verification_report?.document?.email\<close> and
  \<^verbatim>\<open>total_details?.breakdown?.discounts?.[0]?.discount?.id\<close>.
\<close>

record stripe_object =
  object_id :: jsval
  customer_details_email :: jsval
  session_customer_email :: jsval
  payment_status :: jsval
  metadata_user_email :: jsval
  metadata_email :: jsval
  metadata_product_id :: jsval
  metadata_promo_code :: jsval
  metadata_verification_session_id :: jsval
  report_document_email :: jsval
  discount_id :: jsval

record event =
  event_type :: string
  data_object :: stripe_object

text \<open>The response body of the provisioner, \<^verbatim>\<open>data\<close>, with the fields the e-mail uses.\<close>

record provision_data =
  product_url :: jsval
  wg_conf :: jsval
  creds :: jsval

text \<open>
  What is handed to \<^verbatim>\<open>JSON.stringify\<close> for the \<^verbatim>\<open>payload\<close> column: the empty
  object, the object of the event, \<^verbatim>\<open>{provision: data, fulfilled_at: ...}\<close>, or
  \<^verbatim>\<open>{fulfilled_at: ...}\<close>. The JSON text itself is kept abstract: the column holds the
  value it was produced from.
\<close>

datatype payload =
    EmptyObject
  | EventObject stripe_object
  | Provision provision_data int
  | FulfilledAt int

datatype fulfillment_status =
  Paid | Verified | Fulfilled | Needs_input | Payment_not_paid | Fulfillment_failed

section \<open>The table \<^verbatim>\<open>fulfillments\<close>\<close>

text \<open>
  One record per table row, columns as in \<^verbatim>\<open>CREATE TABLE\<close>. The store is the list of
  rows in insertion order; no statement of the program deletes a row or reads the
  \<^verbatim>\<open>id\<close> column, so a row is identified by its position.
  \<^verbatim>\<open>created_at\<close> is a time in seconds.
\<close>

record fulfillment =
  col_checkout_session_id :: sqlval
  col_verification_session_id :: sqlval
  col_customer_email :: sqlval
  col_product_id :: sqlval
  col_promo_code :: sqlval
  col_status :: fulfillment_status
  col_payload :: payload
  col_created_at :: int

type_synonym store = "fulfillment list"

text \<open>The JavaScript object passed to \<^verbatim>\<open>upsert\<close>; a missing \<^verbatim>\<open>payload\<close> is \<open>None\<close>.\<close>

record row =
  checkout_session_id :: jsval
  verification_session_id :: jsval
  customer_email :: jsval
  product_id :: jsval
  promo_code :: jsval
  status :: fulfillment_status
  payload :: "payload option"

datatype failure =
    UniqueConstraint string
  | RelayFailed
  | MailFailed

text \<open>
  The parameter array of \<^verbatim>\<open>db.run\<close>: the tuple \<^verbatim>\<open>VALUES (?, ?, ?, ?, ?, ?, ?)\<close>, which
  the \<^verbatim>\<open>DO UPDATE\<close> clause calls \<^verbatim>\<open>excluded\<close>. \<^verbatim>\<open>created_at\<close> takes its default,
  the current time.
\<close>

definition excluded :: "int \<Rightarrow> row \<Rightarrow> fulfillment" where
  "excluded now r =
     \<lparr> col_checkout_session_id = bind_param (js_or (checkout_session_id r) JNull),
       col_verification_session_id = bind_param (js_or (verification_session_id r) JNull),
       col_customer_email = bind_param (js_or (customer_email r) JNull),
       col_product_id = bind_param (js_or (product_id r) JNull),
       col_promo_code = bind_param (js_or (promo_code r) JNull),
       col_status = status r,
       col_payload = (case payload r of Some p \<Rightarrow> p | None \<Rightarrow> EmptyObject),
       col_created_at = now \<rparr>"

text \<open>
  Two values of a UNIQUE column collide when they are equal and not NULL: SQLite treats
  NULLs as distinct from each other.
\<close>

definition collides :: "sqlval \<Rightarrow> sqlval \<Rightarrow> bool" where
  "collides a b = (a \<noteq> None \<and> a = b)"

text \<open>The \<^verbatim>\<open>DO UPDATE SET\<close> clause of the first handler file (lines 50-56).\<close>

definition do_update :: "fulfillment \<Rightarrow> fulfillment \<Rightarrow> fulfillment" where
  "do_update ex old =
     old \<lparr> col_verification_session_id :=
             coalesce (col_verification_session_id ex) (col_verification_session_id old),
           col_customer_email := coalesce (col_customer_email ex) (col_customer_email old),
           col_product_id := coalesce (col_product_id ex) (col_product_id old),
           col_promo_code := coalesce (col_promo_code ex) (col_promo_code old),
           col_status := col_status ex,
           col_payload := col_payload ex \<rparr>"

text \<open>
  \<^verbatim>\<open>INSERT ... ON CONFLICT(checkout_session_id) DO UPDATE SET ...\<close> on a table whose
  columns \<^verbatim>\<open>checkout_session_id\<close> and \<^verbatim>\<open>verification_session_id\<close> are both UNIQUE.
  SQLite checks the conflict target first. When a row collides on
  \<^verbatim>\<open>checkout_session_id\<close>, that row is updated instead, and the update fails if the
  new \<^verbatim>\<open>verification_session_id\<close> collides with another row. Otherwise the tuple is
  inserted, and the insert fails if its \<^verbatim>\<open>verification_session_id\<close> collides with a
  row: the \<^verbatim>\<open>ON CONFLICT\<close> clause names one constraint only, so the other aborts the
  statement. A failed statement leaves the table as it was and rejects the promise.
  In a table that satisfies the constraints at most one row is on the target; the
  collision check is made for the first one. The update clause is a parameter, since the
  two handler files differ in it.
\<close>

text \<open>The rows the conflict target selects: those that hold the incoming checkout session id.\<close>

definition on_target :: "fulfillment \<Rightarrow> fulfillment \<Rightarrow> bool" where
  "on_target ex x = collides (col_checkout_session_id ex) (col_checkout_session_id x)"

definition upsert_with ::
  "(fulfillment \<Rightarrow> fulfillment \<Rightarrow> fulfillment) \<Rightarrow> int \<Rightarrow> row \<Rightarrow> store
     \<Rightarrow> failure + store" where
  "upsert_with upd now r s =
     (let ex = excluded now r
      in case find (on_target ex) s of
           Some old \<Rightarrow>
             let new = upd ex old
             in if \<exists>x \<in> set s. \<not> on_target ex x \<and>
                     collides (col_verification_session_id new) (col_verification_session_id x)
                then Inl (UniqueConstraint ''fulfillments.verification_session_id'')
                else Inr (map (\<lambda>x. if on_target ex x then upd ex x else x) s)
         | None \<Rightarrow>
             if \<exists>x \<in> set s.
                  collides (col_verification_session_id ex) (col_verification_session_id x)
             then Inl (UniqueConstraint ''fulfillments.verification_session_id'')
             else Inr (s @ [ex]))"

definition upsert :: "int \<Rightarrow> row \<Rightarrow> store \<Rightarrow> failure + store" where
  "upsert = upsert_with do_update"

section \<open>Collaborators\<close>

text \<open>The JSON body of the provisioning request.\<close>

record provision_body =
  pb_email :: jsval
  pb_verification_session_id :: jsval
  pb_product_id :: jsval
  pb_promo_code :: jsval
  pb_checkout_session_id :: jsval

text \<open>
  An e-mail: recipient, subject and body. The HTML is kept abstract: the welcome text
  with the access details taken from the relay data, or the welcome text that announces
  next steps. The dash in the first file's subject is written as a hyphen.
\<close>

datatype mail_body = AccessDetails provision_data | NextSteps

record mail =
  mail_to :: jsval
  mail_subject :: string
  mail_html :: mail_body

text \<open>
  What a request does besides answering, in the order it happens: a statement that
  changed the table, a POST to the provisioner (answered or not), a message handed to
  the mail transport (accepted or not).
\<close>

datatype effect = Wrote row | Posted provision_body | Mailed mail

text \<open>
  The collaborators the source reaches through libraries are parameters of the model:
  \<^verbatim>\<open>stripe.webhooks.constructEvent\<close> with the configured secret (\<open>Inl\<close> when it throws),
  \<^verbatim>\<open>axios.post\<close> to the provisioner (\<open>None\<close> when the promise rejects: a status outside
  2xx, a timeout, no connection), whether the transport accepts a message, and the
  clock. The database fails only through its constraints; I/O errors of the database
  file are not modelled.
\<close>

record env =
  constructEvent :: "string \<Rightarrow> jsval \<Rightarrow> string + event"
  axios_post :: "provision_body \<Rightarrow> provision_data option"
  transport_accepts :: "mail \<Rightarrow> bool"
  clock :: int

record request =
  raw_body :: string
  stripe_signature :: jsval

datatype response_body = Received | Text string

record response =
  code :: nat
  sent :: response_body

definition received :: response where
  "received = \<lparr> code = 200, sent = Received \<rparr>"

definition server_error :: response where
  "server_error = \<lparr> code = 500, sent = Text ''Server error'' \<rparr>"

definition invalid_signature :: response where
  "invalid_signature = \<lparr> code = 400, sent = Text ''Invalid signature'' \<rparr>"

section \<open>The first handler file (lines 1-230)\<close>

text \<open>
  \<^verbatim>\<open>provisionAndWelcome\<close>: POST to the provisioner, record the row as fulfilled, send the
  e-mail. Each \<^verbatim>\<open>await\<close> that rejects ends the function there. The result is the
  rejection (if any), the table and the effects.
\<close>

definition provisionAndWelcome ::
  "env \<Rightarrow> jsval \<Rightarrow> jsval \<Rightarrow> jsval \<Rightarrow> jsval \<Rightarrow> jsval \<Rightarrow> store
     \<Rightarrow> failure option \<times> store \<times> effect list" where
  "provisionAndWelcome env email vsid product promo csid s =
     (let post = \<lparr> pb_email = email,
                    pb_verification_session_id = vsid,
                    pb_product_id = js_or product (JStr ''builder-pass''),
                    pb_promo_code = js_or promo JNull,
                    pb_checkout_session_id = csid \<rparr>
      in case axios_post env post of
           None \<Rightarrow> (Some RelayFailed, s, [Posted post])
         | Some data \<Rightarrow>
             (let r = \<lparr> checkout_session_id = csid,
                        verification_session_id = vsid,
                        customer_email = email,
                        product_id = product,
                        promo_code = promo,
                        status = Fulfilled,
                        payload = Some (Provision data (clock env)) \<rparr>
              in (case upsert (clock env) r s of
                    Inl e \<Rightarrow> (Some e, s, [Posted post])
                  | Inr s' \<Rightarrow>
                      (let m = \<lparr> mail_to = email,
                                 mail_subject = ''SPRAXXX Verification Complete - Your Access'',
                                 mail_html = AccessDetails data \<rparr>
                       in (if transport_accepts env m then None else Some MailFailed,
                           s', [Posted post, Wrote r, Mailed m])))))"

text \<open>The branch for \<^verbatim>\<open>checkout.session.completed\<close> (lines 137-157).\<close>

definition checkout_row :: "stripe_object \<Rightarrow> row" where
  "checkout_row s =
     \<lparr> checkout_session_id = object_id s,
       verification_session_id = js_or (metadata_verification_session_id s) JNull,
       customer_email =
         js_or (customer_details_email s)
           (js_or (session_customer_email s) (js_or (metadata_user_email s) JNull)),
       product_id = js_or (metadata_product_id s) (JStr ''builder-pass''),
       promo_code = js_or (metadata_promo_code s) JNull,
       status = (if payment_status s = JStr ''paid'' then Paid else Payment_not_paid),
       payload = Some (EventObject s) \<rparr>"

definition on_checkout_completed ::
  "env \<Rightarrow> stripe_object \<Rightarrow> store \<Rightarrow> response \<times> store \<times> effect list" where
  "on_checkout_completed env s db =
     (case upsert (clock env) (checkout_row s) db of
        Inl e \<Rightarrow> (server_error, db, [])
      | Inr db' \<Rightarrow> (received, db', [Wrote (checkout_row s)]))"

text \<open>The branch for \<^verbatim>\<open>identity.verification_session.verified\<close> (lines 159-182).\<close>

definition verified_email :: "stripe_object \<Rightarrow> jsval" where
  "verified_email v = js_or (metadata_email v) (js_or (report_document_email v) JNull)"

definition verified_row :: "stripe_object \<Rightarrow> row" where
  "verified_row v =
     \<lparr> checkout_session_id = JNull,
       verification_session_id = object_id v,
       customer_email = verified_email v,
       product_id = js_or (metadata_product_id v) (JStr ''builder-pass''),
       promo_code = js_or (metadata_promo_code v) JNull,
       status = Verified,
       payload = Some (EventObject v) \<rparr>"

definition on_verified ::
  "env \<Rightarrow> stripe_object \<Rightarrow> store \<Rightarrow> response \<times> store \<times> effect list" where
  "on_verified env v db =
     (case upsert (clock env) (verified_row v) db of
        Inl e \<Rightarrow> (server_error, db, [])
      | Inr db1 \<Rightarrow>
          (case provisionAndWelcome env (verified_email v) (object_id v)
                  (js_or (metadata_product_id v) (JStr ''builder-pass''))
                  (js_or (metadata_promo_code v) JNull) JNull db1 of
             (Some e, db2, fx) \<Rightarrow> (server_error, db2, Wrote (verified_row v) # fx)
           | (None, db2, fx) \<Rightarrow> (received, db2, Wrote (verified_row v) # fx)))"

text \<open>The branch for \<^verbatim>\<open>identity.verification_session.requires_input\<close> (lines 184-196).\<close>

definition requires_input_row :: "stripe_object \<Rightarrow> row" where
  "requires_input_row v =
     \<lparr> checkout_session_id = JNull,
       verification_session_id = object_id v,
       customer_email = js_or (metadata_email v) JNull,
       product_id = js_or (metadata_product_id v) (JStr ''builder-pass''),
       promo_code = js_or (metadata_promo_code v) JNull,
       status = Needs_input,
       payload = Some (EventObject v) \<rparr>"

definition on_requires_input ::
  "env \<Rightarrow> stripe_object \<Rightarrow> store \<Rightarrow> response \<times> store \<times> effect list" where
  "on_requires_input env v db =
     (case upsert (clock env) (requires_input_row v) db of
        Inl e \<Rightarrow> (server_error, db, [])
      | Inr db' \<Rightarrow> (received, db', [Wrote (requires_input_row v)]))"

text \<open>The types the dispatcher handles.\<close>

definition handled_types :: "string list" where
  "handled_types =
     [''checkout.session.completed'',
      ''identity.verification_session.verified'',
      ''identity.verification_session.requires_input'']"

text \<open>
  The dispatcher: what happens to an event once its signature has been accepted
  (the \<^verbatim>\<open>try\<close> block of lines 136-204).
\<close>

definition dispatch :: "env \<Rightarrow> event \<Rightarrow> store \<Rightarrow> response \<times> store \<times> effect list" where
  "dispatch env ev db =
     (if event_type ev = ''checkout.session.completed''
        then on_checkout_completed env (data_object ev) db
      else if event_type ev = ''identity.verification_session.verified''
        then on_verified env (data_object ev) db
      else if event_type ev = ''identity.verification_session.requires_input''
        then on_requires_input env (data_object ev) db
      else (received, db, []))"

text \<open>\<^verbatim>\<open>app.post('/webhook', ...)\<close> (lines 126-205).\<close>

definition webhook :: "env \<Rightarrow> request \<Rightarrow> store \<Rightarrow> response \<times> store \<times> effect list" where
  "webhook env req db =
     (case constructEvent env (raw_body req) (stripe_signature req) of
        Inl msg \<Rightarrow> (invalid_signature, db, [])
      | Inr ev \<Rightarrow> dispatch env ev db)"

section \<open>The health endpoint (lines 208-221)\<close>

text \<open>SQL \<^verbatim>\<open>SUM\<close>: NULL when there is no row to add up.\<close>

definition sql_sum :: "int list \<Rightarrow> int option" where
  "sql_sum xs = (if xs = [] then None else Some (sum_list xs))"

record health_row =
  verified :: "int option"
  fulfilled :: "int option"
  events_24h :: "int option"

text \<open>
  The \<^verbatim>\<open>SELECT\<close> of the endpoint; an aggregate query without \<^verbatim>\<open>GROUP BY\<close> returns
  one row also on an empty table. \<^verbatim>\<open>DATETIME('now','-1 day')\<close> is the clock minus 86400
  seconds.
\<close>

definition health_query :: "int \<Rightarrow> store \<Rightarrow> health_row" where
  "health_query now db =
     \<lparr> verified = sql_sum (map (\<lambda>x. if col_status x = Verified then 1 else 0) db),
       fulfilled = sql_sum (map (\<lambda>x. if col_status x = Fulfilled then 1 else 0) db),
       events_24h = sql_sum (map (\<lambda>x. if now - 86400 \<le> col_created_at x then 1 else 0) db) \<rparr>"

text \<open>
  \<^verbatim>\<open>res.json({ ok: true, ...row })\<close>; the branch for a failed query belongs to the
  I/O errors left out above.
\<close>

record health_response =
  health_code :: nat
  health_ok :: bool
  health_counts :: health_row

definition api_health :: "int \<Rightarrow> store \<Rightarrow> health_response" where
  "api_health now db =
     \<lparr> health_code = 200, health_ok = True, health_counts = health_query now db \<rparr>"

section \<open>The second handler file (lines 231-384)\<close>

text \<open>
  The same routes with another \<^verbatim>\<open>DO UPDATE SET\<close> clause: every column is taken from
  the incoming tuple. The file creates no table; the statement is run against the table
  above.
\<close>

definition do_update_v2 :: "fulfillment \<Rightarrow> fulfillment \<Rightarrow> fulfillment" where
  "do_update_v2 ex old =
     old \<lparr> col_verification_session_id := col_verification_session_id ex,
           col_customer_email := col_customer_email ex,
           col_product_id := col_product_id ex,
           col_promo_code := col_promo_code ex,
           col_status := col_status ex,
           col_payload := col_payload ex \<rparr>"

definition upsert_v2 :: "int \<Rightarrow> row \<Rightarrow> store \<Rightarrow> failure + store" where
  "upsert_v2 = upsert_with do_update_v2"

text \<open>
  The row objects of the three cases. The checkout case passes no
  \<^verbatim>\<open>verification_session_id\<close> and always the status \<^verbatim>\<open>paid\<close>.
\<close>

definition checkout_row_v2 :: "stripe_object \<Rightarrow> row" where
  "checkout_row_v2 s =
     \<lparr> checkout_session_id = object_id s,
       verification_session_id = JUndefined,
       customer_email = customer_details_email s,
       product_id = js_or (metadata_product_id s) (JStr ''builder-pass''),
       promo_code = js_or (discount_id s) JNull,
       status = Paid,
       payload = Some (EventObject s) \<rparr>"

definition verified_row_v2 :: "stripe_object \<Rightarrow> row" where
  "verified_row_v2 v =
     \<lparr> checkout_session_id = JNull,
       verification_session_id = object_id v,
       customer_email = metadata_email v,
       product_id = js_or (metadata_product_id v) (JStr ''builder-pass''),
       promo_code = JNull,
       status = Verified,
       payload = Some (EventObject v) \<rparr>"

definition fulfilled_row_v2 :: "int \<Rightarrow> stripe_object \<Rightarrow> row" where
  "fulfilled_row_v2 now v =
     \<lparr> checkout_session_id = JNull,
       verification_session_id = object_id v,
       customer_email = metadata_email v,
       product_id = js_or (metadata_product_id v) (JStr ''builder-pass''),
       promo_code = JNull,
       status = Fulfilled,
       payload = Some (FulfilledAt now) \<rparr>"

definition requires_input_row_v2 :: "stripe_object \<Rightarrow> row" where
  "requires_input_row_v2 v =
     \<lparr> checkout_session_id = JNull,
       verification_session_id = object_id v,
       customer_email = js_or (metadata_email v) JNull,
       product_id = js_or (metadata_product_id v) (JStr ''builder-pass''),
       promo_code = JNull,
       status = Needs_input,
       payload = Some (EventObject v) \<rparr>"

text \<open>
  The case \<^verbatim>\<open>identity.verification_session.verified\<close> (lines 309-356): the relay is
  called only when the metadata carry an e-mail address.
\<close>

definition on_verified_v2 ::
  "env \<Rightarrow> stripe_object \<Rightarrow> store \<Rightarrow> response \<times> store \<times> effect list" where
  "on_verified_v2 env v db =
     (case upsert_v2 (clock env) (verified_row_v2 v) db of
        Inl e \<Rightarrow> (server_error, db, [])
      | Inr db1 \<Rightarrow>
          if truthy (metadata_email v) then
            (let post = \<lparr> pb_email = metadata_email v,
                           pb_verification_session_id = object_id v,
                           pb_product_id = js_or (metadata_product_id v) (JStr ''builder-pass''),
                           pb_promo_code = JUndefined,
                           pb_checkout_session_id = JUndefined \<rparr>
             in case axios_post env post of
                  None \<Rightarrow> (server_error, db1, [Wrote (verified_row_v2 v), Posted post])
                | Some data \<Rightarrow>
                    (case upsert_v2 (clock env) (fulfilled_row_v2 (clock env) v) db1 of
                       Inl e \<Rightarrow> (server_error, db1, [Wrote (verified_row_v2 v), Posted post])
                     | Inr db2 \<Rightarrow>
                         let m = \<lparr> mail_to = metadata_email v,
                                   mail_subject = ''SPRAXXX Verification Complete'',
                                   mail_html = NextSteps \<rparr>
                         in (if transport_accepts env m then received else server_error, db2,
                             [Wrote (verified_row_v2 v), Posted post,
                              Wrote (fulfilled_row_v2 (clock env) v), Mailed m])))
          else (received, db1, [Wrote (verified_row_v2 v)]))"

text \<open>A case that only writes its row (lines 296-307 and 358-370).\<close>

definition write_v2 ::
  "env \<Rightarrow> row \<Rightarrow> store \<Rightarrow> response \<times> store \<times> effect list" where
  "write_v2 env r db =
     (case upsert_v2 (clock env) r db of
        Inl e \<Rightarrow> (server_error, db, [])
      | Inr db' \<Rightarrow> (received, db', [Wrote r]))"

text \<open>\<^verbatim>\<open>app.post('/webhook', ...)\<close> of the second file (lines 246-384).\<close>

definition webhook_v2 :: "env \<Rightarrow> request \<Rightarrow> store \<Rightarrow> response \<times> store \<times> effect list" where
  "webhook_v2 env req db =
     (case constructEvent env (raw_body req) (stripe_signature req) of
        Inl msg \<Rightarrow> (invalid_signature, db, [])
      | Inr ev \<Rightarrow>
          if event_type ev = ''checkout.session.completed''
            then write_v2 env (checkout_row_v2 (data_object ev)) db
          else if event_type ev = ''identity.verification_session.verified''
            then on_verified_v2 env (data_object ev) db
          else if event_type ev = ''identity.verification_session.requires_input''
            then write_v2 env (requires_input_row_v2 (data_object ev)) db
          else (received, db, []))"

text \<open>
  The third file (lines 385-547) handles \<^verbatim>\<open>checkout.session.completed\<close> only, through
  callbacks whose statements are not awaited. It is not modelled; its \<^verbatim>\<open>catch\<close> block is
  the one place in the source that writes the status \<^verbatim>\<open>fulfillment_failed\<close>.
\<close>

section \<open>Notions used to state the properties\<close>

text \<open>The row stored under a checkout session id, if there is one.\<close>

definition row_of :: "jsval \<Rightarrow> store \<Rightarrow> fulfillment option" where
  "row_of k db = find (\<lambda>x. col_checkout_session_id x = Some k) db"

text \<open>
  The lifecycle of the specification: \<^verbatim>\<open>paid\<close> and \<^verbatim>\<open>payment_not_paid\<close> are the first
  stage, \<^verbatim>\<open>verified\<close> the second, \<^verbatim>\<open>fulfilled\<close> the third; \<^verbatim>\<open>needs_input\<close> and
  \<^verbatim>\<open>fulfillment_failed\<close> are the side states. A change from \<open>a\<close> to \<open>b\<close> is forward
  when \<open>b\<close> is a side state (a move sideways into it), or when both are stages and
  \<open>b\<close> is not an earlier one. A change from a side state back to a stage is not
  forward. The relation is reflexive and transitive.
\<close>

fun stage :: "fulfillment_status \<Rightarrow> nat option" where
  "stage Paid = Some 0"
| "stage Payment_not_paid = Some 0"
| "stage Verified = Some 1"
| "stage Fulfilled = Some 2"
| "stage Needs_input = None"
| "stage Fulfillment_failed = None"

definition forward :: "fulfillment_status \<Rightarrow> fulfillment_status \<Rightarrow> bool" where
  "forward a b =
     (case stage b of
        None \<Rightarrow> True
      | Some j \<Rightarrow> (case stage a of None \<Rightarrow> False | Some i \<Rightarrow> i \<le> j))"

text \<open>
  The table after a history of requests, each with the collaborators it met. The tables
  the handler can reach are \<open>deliver hist []\<close>.
\<close>

fun deliver :: "(env \<times> request) list \<Rightarrow> store \<Rightarrow> store" where
  "deliver [] db = db"
| "deliver ((env, req) # rest) db = deliver rest (fst (snd (webhook env req db)))"





text \<open>No two rows share a checkout session id, and no two a verification session id.\<close>

definition unique_ids :: "store \<Rightarrow> bool" where
  "unique_ids db =
     (distinct (List.map_filter col_checkout_session_id db) \<and>
      distinct (List.map_filter col_verification_session_id db))"

subsection \<open>Sample inputs\<close>

text \<open>An object with every field missing, and a row object with every field missing.\<close>

definition blank_object :: stripe_object where
  "blank_object =
     \<lparr> object_id = JUndefined, customer_details_email = JUndefined,
       session_customer_email = JUndefined, payment_status = JUndefined,
       metadata_user_email = JUndefined, metadata_email = JUndefined,
       metadata_product_id = JUndefined, metadata_promo_code = JUndefined,
       metadata_verification_session_id = JUndefined, report_document_email = JUndefined,
       discount_id = JUndefined \<rparr>"

definition blank_row :: row where
  "blank_row =
     \<lparr> checkout_session_id = JUndefined, verification_session_id = JUndefined,
       customer_email = JUndefined, product_id = JUndefined, promo_code = JUndefined,
       status = Paid, payload = None \<rparr>"

text \<open>Row objects for the session \<^verbatim>\<open>cs_1\<close> that differ in one field.\<close>

definition promo_row :: "jsval \<Rightarrow> row" where
  "promo_row p = blank_row \<lparr> checkout_session_id := JStr ''cs_1'', promo_code := p \<rparr>"

definition email_row :: "jsval \<Rightarrow> row" where
  "email_row e = blank_row \<lparr> checkout_session_id := JStr ''cs_1'', customer_email := e \<rparr>"


definition sample_data :: provision_data where
  "sample_data =
     \<lparr> product_url = JStr ''https://vps.example/u1'', wg_conf = JUndefined,
       creds = JUndefined \<rparr>"

text \<open>
  Collaborators for the examples: one signature is accepted and yields the given event;
  the provisioner and the mail transport are up or down as the flags say.
\<close>

definition sample_env :: "event \<Rightarrow> bool \<Rightarrow> bool \<Rightarrow> env" where
  "sample_env ev relay_up mail_up =
     \<lparr> constructEvent =
         (\<lambda>b sig. if sig = JStr ''t=1,v1=5257'' then Inr ev else Inl ''No signatures found''),
       axios_post = (\<lambda>p. if relay_up then Some sample_data else None),
       transport_accepts = (\<lambda>m. mail_up),
       clock = 1000 \<rparr>"

definition signed :: request where
  "signed = \<lparr> raw_body = ''{}'', stripe_signature = JStr ''t=1,v1=5257'' \<rparr>"

definition unsigned :: request where
  "unsigned = \<lparr> raw_body = ''{}'', stripe_signature = JUndefined \<rparr>"

definition checkout_event :: "jsval \<Rightarrow> event" where
  "checkout_event st =
     \<lparr> event_type = ''checkout.session.completed'',
       data_object = blank_object \<lparr> object_id := JStr ''cs_1'', payment_status := st \<rparr> \<rparr>"

definition other_event :: event where
  "other_event =
     \<lparr> event_type = ''invoice.paid'',
       data_object = blank_object \<lparr> object_id := JStr ''in_1'' \<rparr> \<rparr>"

definition verified_event :: event where
  "verified_event =
     \<lparr> event_type = ''identity.verification_session.verified'',
       data_object = blank_object \<lparr> object_id := JStr ''vs_1'', metadata_email := JStr ''a@b.c'' \<rparr> \<rparr>"







text \<open>The request body the first file posts for \<open>verified_event\<close>.\<close>

definition verified_post :: provision_body where
  "verified_post =
     \<lparr> pb_email = JStr ''a@b.c'', pb_verification_session_id = JStr ''vs_1'',
       pb_product_id = JStr ''builder-pass'', pb_promo_code = JNull,
       pb_checkout_session_id = JNull \<rparr>"

section \<open>Facts about binding and \<^verbatim>\<open>upsert\<close>\<close>

lemma bind_or_null: "bind_param (js_or v JNull) = (if truthy v then Some v else None)"
  by (cases v) (auto simp: js_or_def)

lemma bind_truthy: "truthy v \<Longrightarrow> bind_param v = Some v"
  by (cases v) simp_all

lemma find_map_update:
  "find P xs = Some old \<Longrightarrow> P (f old) \<Longrightarrow> find P (map (\<lambda>x. if P x then f x else x) xs) = Some (f old)"
  by (induction xs) (auto split: if_splits)

lemma find_append_new: "find P xs = None \<Longrightarrow> P x \<Longrightarrow> find P (xs @ [x]) = Some x"
  by (induction xs) (auto split: if_splits)

lemma upsert_cases:
  assumes "upsert_with upd now r s = Inr s'"
  shows "(find (on_target (excluded now r)) s = None
          \<and> s' = s @ [excluded now r])
       \<or> (\<exists>old. find (on_target (excluded now r)) s = Some old
          \<and> s' = map (\<lambda>x. if on_target (excluded now r) x then upd (excluded now r) x else x) s)"
  using assms unfolding upsert_with_def Let_def
  by (auto split: option.splits if_splits)

lemma excluded_checkout: "truthy (checkout_session_id r) \<Longrightarrow>
   col_checkout_session_id (excluded now r) = Some (checkout_session_id r)"
  by (simp add: excluded_def bind_or_null)

lemma collides_Some: "collides (Some k) b = (b = Some k)"
  by (auto simp: collides_def on_target_def)

lemma collides_None: "collides None b = False"
  by (simp add: collides_def on_target_def)

lemma upsert_row_of:
  assumes k: "truthy (checkout_session_id r)" and u: "upsert now r s = Inr s'"
  shows "(row_of (checkout_session_id r) s = None \<and> s' = s @ [excluded now r]
            \<and> row_of (checkout_session_id r) s' = Some (excluded now r))
       \<or> (\<exists>old. row_of (checkout_session_id r) s = Some old \<and> length s' = length s
            \<and> row_of (checkout_session_id r) s' = Some (do_update (excluded now r) old))"
proof -
  let ?k = "checkout_session_id r"
  have P: "on_target (excluded now r) = (\<lambda>x. col_checkout_session_id x = Some ?k)"
    using k by (simp add: excluded_checkout collides_Some on_target_def fun_eq_iff)
  from upsert_cases[OF u[unfolded upsert_def]]
  have "(find (\<lambda>x. col_checkout_session_id x = Some ?k) s = None \<and> s' = s @ [excluded now r])
       \<or> (\<exists>old. find (\<lambda>x. col_checkout_session_id x = Some ?k) s = Some old
          \<and> s' = map (\<lambda>x. if col_checkout_session_id x = Some ?k
                            then do_update (excluded now r) x else x) s)"
    by (simp only: P)
  then show ?thesis
  proof
    assume a: "find (\<lambda>x. col_checkout_session_id x = Some ?k) s = None \<and> s' = s @ [excluded now r]"
    then have "row_of ?k s = None" by (simp add: row_of_def)
    moreover have "row_of ?k s' = Some (excluded now r)"
      using a k unfolding row_of_def by (simp add: find_append_new excluded_checkout)
    ultimately show ?thesis using a by simp
  next
    assume "\<exists>old. find (\<lambda>x. col_checkout_session_id x = Some ?k) s = Some old
          \<and> s' = map (\<lambda>x. if col_checkout_session_id x = Some ?k
                            then do_update (excluded now r) x else x) s"
    then obtain old where f: "find (\<lambda>x. col_checkout_session_id x = Some ?k) s = Some old"
      and s': "s' = map (\<lambda>x. if col_checkout_session_id x = Some ?k
                               then do_update (excluded now r) x else x) s"
      by blast
    have "col_checkout_session_id old = Some ?k" using f by (auto simp: find_Some_iff)
    then have "col_checkout_session_id (do_update (excluded now r) old) = Some ?k"
      by (simp add: do_update_def)
    from find_map_update[OF f, of "do_update (excluded now r)", OF this]
    have "row_of ?k s' = Some (do_update (excluded now r) old)"
      by (simp add: row_of_def s')
    then show ?thesis using f s' by (simp add: row_of_def)
  qed
qed

text \<open>
  After a successful statement a row with the incoming checkout session id and the
  incoming status exists, and every row that collides with that id has that status. This
  holds for every update clause that keeps the id and takes the incoming status.
\<close>

lemma upsert_with_writes_status:
  assumes "upsert_with upd now r db = Inr db'"
    and keep: "\<And>ex x. col_checkout_session_id (upd ex x) = col_checkout_session_id x"
    and new: "\<And>ex x. col_status (upd ex x) = col_status ex"
  shows "(\<exists>x \<in> set db'. col_checkout_session_id x = col_checkout_session_id (excluded now r)
            \<and> col_status x = status r)
       \<and> (\<forall>x \<in> set db'.
            on_target (excluded now r) x
            \<longrightarrow> col_status x = status r)"
proof -
  let ?P = "on_target (excluded now r)"
  have st: "col_status (excluded now r) = status r" by (simp add: excluded_def)
  from upsert_cases[OF assms(1)] show ?thesis
  proof
    assume a: "find ?P db = None \<and> db' = db @ [excluded now r]"
    then have "\<forall>x \<in> set db. \<not> ?P x" by (simp add: find_None_iff)
    with a st show ?thesis by auto
  next
    assume "\<exists>old. find ?P db = Some old \<and>
        db' = map (\<lambda>x. if ?P x then upd (excluded now r) x else x) db"
    then obtain old where f: "find ?P db = Some old"
      and d: "db' = map (\<lambda>x. if ?P x then upd (excluded now r) x else x) db"
      by blast
    from f have o: "old \<in> set db" "?P old" by (auto simp: find_Some_iff in_set_conv_nth)
    have "upd (excluded now r) old \<in> set db'" using o d by force
    moreover have "col_checkout_session_id (upd (excluded now r) old)
        = col_checkout_session_id (excluded now r)"
      using o(2) by (simp add: keep collides_def on_target_def)
    ultimately have ex: "\<exists>x \<in> set db'.
        col_checkout_session_id x = col_checkout_session_id (excluded now r)
            \<and> col_status x = status r"
      using new st by metis
    have "\<forall>x \<in> set db'. ?P x \<longrightarrow> col_status x = status r"
      unfolding d by (auto simp: keep new st)
    with ex show ?thesis by blast
  qed
qed

lemma upsert_writes_status:
  assumes "upsert now r db = Inr db'"
  shows "(\<exists>x \<in> set db'. col_checkout_session_id x = col_checkout_session_id (excluded now r)
            \<and> col_status x = status r)
       \<and> (\<forall>x \<in> set db'.
            on_target (excluded now r) x
            \<longrightarrow> col_status x = status r)"
  by (rule upsert_with_writes_status[OF assms[unfolded upsert_def]])
     (simp_all add: do_update_def)

text \<open>
  A row object without a checkout session id never meets the conflict target: the
  statement inserts or fails.
\<close>

lemma upsert_null_key:
  assumes "\<not> truthy (checkout_session_id r)" and "upsert now r db = Inr db'"
  shows "db' = db @ [excluded now r] \<and> col_checkout_session_id (excluded now r) = None"
proof -
  have n: "col_checkout_session_id (excluded now r) = None"
    using assms(1) by (simp add: excluded_def bind_or_null)
  then have "find (on_target (excluded now r)) db = None"
    by (simp add: collides_None on_target_def find_None_iff)
  with upsert_cases[OF assms(2)[unfolded upsert_def]] n show ?thesis by auto
qed

lemma upsert_verification_id_taken:
  assumes "\<not> truthy (checkout_session_id r)" and "truthy (verification_session_id r)"
    and "x \<in> set db" and "col_verification_session_id x = Some (verification_session_id r)"
  shows "upsert now r db = Inl (UniqueConstraint ''fulfillments.verification_session_id'')"
proof -
  have c: "col_checkout_session_id (excluded now r) = None"
    and v: "col_verification_session_id (excluded now r) = Some (verification_session_id r)"
    using assms(1,2) by (simp_all add: excluded_def bind_or_null)
  have "find (on_target (excluded now r)) db = None"
    by (simp add: c collides_None on_target_def find_None_iff)
  moreover have "\<exists>x \<in> set db. collides (col_verification_session_id (excluded now r))
      (col_verification_session_id x)"
    using assms(3,4) by (intro bexI[of _ x]) (simp_all add: v collides_def on_target_def)
  ultimately show ?thesis by (simp add: upsert_def upsert_with_def on_target_def Let_def)
qed

text \<open>The table \<^verbatim>\<open>provisionAndWelcome\<close> returns: the one it got, or the result of its one statement.\<close>

lemma provisionAndWelcome_store:
  assumes "provisionAndWelcome env email vsid product promo csid db = (e, db', fx)"
  shows "db' = db \<or>
         (\<exists>r. checkout_session_id r = csid \<and> status r = Fulfilled \<and>
              upsert (clock env) r db = Inr db')"
proof -
  let ?post = "\<lparr> pb_email = email, pb_verification_session_id = vsid,
                 pb_product_id = js_or product (JStr ''builder-pass''),
                 pb_promo_code = js_or promo JNull, pb_checkout_session_id = csid \<rparr>"
  show ?thesis
  proof (cases "axios_post env ?post")
    case None
    with assms show ?thesis by (simp add: provisionAndWelcome_def)
  next
    case (Some data)
    let ?r = "\<lparr> checkout_session_id = csid, verification_session_id = vsid,
                customer_email = email, product_id = product, promo_code = promo,
                status = Fulfilled, payload = Some (Provision data (clock env)) \<rparr>"
    show ?thesis
    proof (cases "upsert (clock env) ?r db")
      case (Inl err)
      with assms Some show ?thesis by (simp add: provisionAndWelcome_def)
    next
      case (Inr s1)
      with assms Some have "db' = s1" by (simp add: provisionAndWelcome_def Let_def)
      with Inr show ?thesis by (intro disjI2 exI[of _ ?r]) simp
    qed
  qed
qed

section \<open>Merge on conflict\<close>

text \<open>
  C3. Two calls of \<^verbatim>\<open>upsert\<close> with the same checkout session id \<open>k\<close>, both
  successful: the second call finds the row the first one left and creates no row. In
  that row each of \<^verbatim>\<open>verification_session_id\<close>, \<^verbatim>\<open>customer_email\<close>,
  \<^verbatim>\<open>product_id\<close> and \<^verbatim>\<open>promo_code\<close> is the incoming value where that value is
  present (truthy) and the value the row had before otherwise, while
  \<^verbatim>\<open>status\<close> and \<^verbatim>\<open>payload\<close> are the incoming ones whatever the row held.
\<close>

theorem upsert_merge:
  assumes "truthy k"
    and "checkout_session_id r1 = k" and "checkout_session_id r2 = k"
    and "upsert t1 r1 s = Inr s1" and "upsert t2 r2 s1 = Inr s2"
  shows "\<exists>old new. row_of k s1 = Some old \<and> row_of k s2 = Some new \<and> length s2 = length s1 \<and>
     col_verification_session_id new =
       (if truthy (verification_session_id r2) then Some (verification_session_id r2)
        else col_verification_session_id old) \<and>
     col_customer_email new =
       (if truthy (customer_email r2) then Some (customer_email r2) else col_customer_email old) \<and>
     col_product_id new =
       (if truthy (product_id r2) then Some (product_id r2) else col_product_id old) \<and>
     col_promo_code new =
       (if truthy (promo_code r2) then Some (promo_code r2) else col_promo_code old) \<and>
     col_status new = status r2 \<and>
     col_payload new = (case payload r2 of Some p \<Rightarrow> p | None \<Rightarrow> EmptyObject)"
proof -
  from upsert_row_of[of r1 t1 s s1] assms
  obtain old where old: "row_of k s1 = Some old" by auto
  with upsert_row_of[of r2 t2 s1 s2] assms
  have new: "row_of k s2 = Some (do_update (excluded t2 r2) old)" and len: "length s2 = length s1"
    by auto
  show ?thesis
    using old new len
    by (simp add: do_update_def excluded_def bind_or_null coalesce_def)
qed

text \<open>
  The two examples of the specification: \<^verbatim>\<open>promoCode\<close> null then \<^verbatim>\<open>"X"\<close> ends
  with \<^verbatim>\<open>"X"\<close>, and \<^verbatim>\<open>"X"\<close> then null keeps \<^verbatim>\<open>"X"\<close>.
\<close>

theorem upsert_merge_witness:
  "(\<exists>s1 s2 new. upsert 1 (promo_row JNull) [] = Inr s1 \<and>
       upsert 2 (promo_row (JStr ''X'')) s1 = Inr s2 \<and>
       row_of (JStr ''cs_1'') s2 = Some new \<and> col_promo_code new = Some (JStr ''X'')) \<and>
   (\<exists>s1 s2 new. upsert 1 (promo_row (JStr ''X'')) [] = Inr s1 \<and>
       upsert 2 (promo_row JNull) s1 = Inr s2 \<and>
       row_of (JStr ''cs_1'') s2 = Some new \<and> col_promo_code new = Some (JStr ''X''))"
proof -
  have k: "truthy (JStr ''cs_1'')" by simp
  have c: "\<And>p. checkout_session_id (promo_row p) = JStr ''cs_1''"
    by (simp add: promo_row_def)
  have first: "\<And>p. upsert 1 (promo_row p) [] = Inr [excluded 1 (promo_row p)]"
    by (simp add: upsert_def upsert_with_def on_target_def)
  have second: "\<And>p q. upsert 2 (promo_row q) [excluded 1 (promo_row p)]
       = Inr [do_update (excluded 2 (promo_row q)) (excluded 1 (promo_row p))]"
    by (simp add: upsert_def upsert_with_def on_target_def Let_def excluded_def promo_row_def
        collides_def js_or_def do_update_def)
  have old: "\<And>p. row_of (JStr ''cs_1'') [excluded 1 (promo_row p)] = Some (excluded 1 (promo_row p))"
    by (simp add: row_of_def excluded_def promo_row_def js_or_def)
  have nx: "col_promo_code (excluded 1 (promo_row JNull)) = None"
    and xn: "col_promo_code (excluded 1 (promo_row (JStr ''X''))) = Some (JStr ''X'')"
    by (simp_all add: excluded_def promo_row_def js_or_def)
  have pc: "\<And>p. promo_code (promo_row p) = p"
    by (simp add: promo_row_def)
  from upsert_merge[OF k c c first second, of JNull "JStr ''X''"]
  obtain new1 where a: "row_of (JStr ''cs_1'')
        [do_update (excluded 2 (promo_row (JStr ''X''))) (excluded 1 (promo_row JNull))] = Some new1"
      "col_promo_code new1 = Some (JStr ''X'')"
    by (auto simp: pc)
  from upsert_merge[OF k c c first second, of "JStr ''X''" JNull]
  obtain new2 where b: "row_of (JStr ''cs_1'')
        [do_update (excluded 2 (promo_row JNull)) (excluded 1 (promo_row (JStr ''X'')))] = Some new2"
      "col_promo_code new2 = Some (JStr ''X'')"
    by (auto simp: pc old xn)
  show ?thesis using a b first second by blast
qed

section \<open>Falsy fields\<close>

text \<open>The update clause leaves a column alone when the incoming value of that column is NULL.\<close>

lemma upsert_keeps_column:
  assumes "upsert now r db = Inr db'"
    and "\<And>x. f (do_update (excluded now r) x) = f x"
  shows "db' = db @ [excluded now r] \<or> map f db' = map f db"
proof -
  have keep: "map f (map (\<lambda>x. if P x then do_update (excluded now r) x else x) db) = map f db"
    for P
    using assms(2) by (induction db) auto
  from upsert_cases[OF assms(1)[unfolded upsert_def]] show ?thesis
  proof
    assume "find (on_target (excluded now r)) db = None \<and> db' = db @ [excluded now r]"
    then show ?thesis by simp
  next
    assume "\<exists>old. find (on_target (excluded now r)) db = Some old \<and>
        db' = map (\<lambda>x. if on_target (excluded now r) x
                        then do_update (excluded now r) x else x) db"
    then have "map f db' = map f db" using keep by blast
    then show ?thesis by simp
  qed
qed

text \<open>
  C10. A field of the row object that is falsy (the empty string, \<^verbatim>\<open>null\<close>,
  \<^verbatim>\<open>undefined\<close>, \<^verbatim>\<open>0\<close>, \<^verbatim>\<open>false\<close>) is bound as NULL. When the statement
  succeeds, either the bound tuple was appended as a new row, which then holds NULL in
  that column, or the column is unchanged in every row of the table: the merge treats
  the field as absent and no stored value is overwritten.
\<close>

theorem falsy_field_is_null:
  "(\<not> truthy (checkout_session_id r) \<longrightarrow>
      col_checkout_session_id (excluded now r) = None)
   \<and> (\<not> truthy (verification_session_id r) \<longrightarrow>
        col_verification_session_id (excluded now r) = None \<and>
        (upsert now r db = Inr db' \<longrightarrow>
           db' = db @ [excluded now r] \<or>
           map col_verification_session_id db' = map col_verification_session_id db))
   \<and> (\<not> truthy (customer_email r) \<longrightarrow>
        col_customer_email (excluded now r) = None \<and>
        (upsert now r db = Inr db' \<longrightarrow>
           db' = db @ [excluded now r] \<or>
           map col_customer_email db' = map col_customer_email db))
   \<and> (\<not> truthy (product_id r) \<longrightarrow>
        col_product_id (excluded now r) = None \<and>
        (upsert now r db = Inr db' \<longrightarrow>
           db' = db @ [excluded now r] \<or>
           map col_product_id db' = map col_product_id db))
   \<and> (\<not> truthy (promo_code r) \<longrightarrow>
        col_promo_code (excluded now r) = None \<and>
        (upsert now r db = Inr db' \<longrightarrow>
           db' = db @ [excluded now r] \<or>
           map col_promo_code db' = map col_promo_code db))"
proof (intro conjI impI)
  assume "\<not> truthy (checkout_session_id r)"
  then show "col_checkout_session_id (excluded now r) = None"
    by (simp add: excluded_def bind_or_null)
next
  assume f: "\<not> truthy (verification_session_id r)"
  then show n: "col_verification_session_id (excluded now r) = None"
    by (simp add: excluded_def bind_or_null)
  assume "upsert now r db = Inr db'"
  then show "db' = db @ [excluded now r] \<or>
      map col_verification_session_id db' = map col_verification_session_id db"
    by (rule upsert_keeps_column) (simp add: do_update_def n coalesce_def)
next
  assume f: "\<not> truthy (customer_email r)"
  then show n: "col_customer_email (excluded now r) = None"
    by (simp add: excluded_def bind_or_null)
  assume "upsert now r db = Inr db'"
  then show "db' = db @ [excluded now r] \<or> map col_customer_email db' = map col_customer_email db"
    by (rule upsert_keeps_column) (simp add: do_update_def n coalesce_def)
next
  assume f: "\<not> truthy (product_id r)"
  then show n: "col_product_id (excluded now r) = None"
    by (simp add: excluded_def bind_or_null)
  assume "upsert now r db = Inr db'"
  then show "db' = db @ [excluded now r] \<or> map col_product_id db' = map col_product_id db"
    by (rule upsert_keeps_column) (simp add: do_update_def n coalesce_def)
next
  assume f: "\<not> truthy (promo_code r)"
  then show n: "col_promo_code (excluded now r) = None"
    by (simp add: excluded_def bind_or_null)
  assume "upsert now r db = Inr db'"
  then show "db' = db @ [excluded now r] \<or> map col_promo_code db' = map col_promo_code db"
    by (rule upsert_keeps_column) (simp add: do_update_def n coalesce_def)
qed

text \<open>
  An empty \<^verbatim>\<open>customer_email\<close> is stored as NULL on insert and leaves a stored address
  in place on conflict.
\<close>

theorem falsy_field_is_null_witness:
  "\<not> truthy (JStr '''') \<and>
   upsert 1 (email_row (JStr '''')) [] = Inr [excluded 1 (email_row (JStr ''''))] \<and>
   col_customer_email (excluded 1 (email_row (JStr ''''))) = None \<and>
   (\<exists>db'. upsert 2 (email_row (JStr '''')) [excluded 1 (email_row (JStr ''a@b.c''))] = Inr db' \<and>
      map col_customer_email db' = [Some (JStr ''a@b.c'')])"
proof -
  have f: "\<not> truthy (customer_email (email_row (JStr '''')))"
    by (simp add: email_row_def)
  have u1: "upsert 1 (email_row (JStr '''')) [] = Inr [excluded 1 (email_row (JStr ''''))]"
    by (simp add: upsert_def upsert_with_def)
  have u2: "upsert 2 (email_row (JStr '''')) [excluded 1 (email_row (JStr ''a@b.c''))]
      = Inr [do_update (excluded 2 (email_row (JStr ''''))) (excluded 1 (email_row (JStr ''a@b.c'')))]"
    by (simp add: upsert_def upsert_with_def on_target_def Let_def excluded_def email_row_def
        collides_def js_or_def do_update_def)
  have old: "col_customer_email (excluded 1 (email_row (JStr ''a@b.c''))) = Some (JStr ''a@b.c'')"
    by (simp add: excluded_def email_row_def js_or_def)
  from falsy_field_is_null[of "email_row (JStr '''')" 1] f
  have n: "col_customer_email (excluded 1 (email_row (JStr ''''))) = None" by blast
  from falsy_field_is_null[of "email_row (JStr '''')" 2
      "[excluded 1 (email_row (JStr ''a@b.c''))]"
      "[do_update (excluded 2 (email_row (JStr ''''))) (excluded 1 (email_row (JStr ''a@b.c'')))]"]
    f u2
  have "map col_customer_email
          [do_update (excluded 2 (email_row (JStr ''''))) (excluded 1 (email_row (JStr ''a@b.c'')))]
        = [Some (JStr ''a@b.c'')]"
    by (auto simp: old)
  with u1 u2 n show ?thesis by simp
qed

section \<open>Signature check and dispatch\<close>

text \<open>
  C5. When \<^verbatim>\<open>constructEvent\<close> throws (the signature header is missing or does not
  match), the answer is 400, the table is the one before the request, and nothing else
  happens: no statement runs, the provisioner is not called, no mail is sent.
\<close>

theorem invalid_signature_rejected:
  assumes "constructEvent env (raw_body req) (stripe_signature req) = Inl msg"
  shows "webhook env req db = (invalid_signature, db, []) \<and> code invalid_signature = 400"
  using assms by (simp add: webhook_def invalid_signature_def)

text \<open>A request without the signature header, on the empty table.\<close>

theorem invalid_signature_rejected_witness:
  "constructEvent (sample_env (checkout_event (JStr ''paid'')) True True) (raw_body unsigned) (stripe_signature unsigned)
      = Inl ''No signatures found'' \<and>
   webhook (sample_env (checkout_event (JStr ''paid'')) True True) unsigned [] = (invalid_signature, [], []) \<and>
   code invalid_signature = 400"
proof -
  have h: "constructEvent (sample_env (checkout_event (JStr ''paid'')) True True) (raw_body unsigned) (stripe_signature unsigned)
      = Inl ''No signatures found''"
    by (simp add: sample_env_def unsigned_def)
  from invalid_signature_rejected[OF h, of "[]"] h show ?thesis by simp
qed

text \<open>
  C8. An event with an accepted signature whose type is none of the three handled ones
  is answered 200 with the receipt \<^verbatim>\<open>{received: true}\<close>; the table is unchanged and
  there is no call to the provisioner and no mail.
\<close>

theorem unhandled_event_acknowledged:
  assumes "constructEvent env (raw_body req) (stripe_signature req) = Inr ev"
    and "event_type ev \<notin> set handled_types"
  shows "webhook env req db = (received, db, []) \<and> code received = 200 \<and> sent received = Received"
  using assms by (simp add: webhook_def dispatch_def handled_types_def received_def)

text \<open>A signed \<^verbatim>\<open>invoice.paid\<close> event, on the empty table.\<close>

theorem unhandled_event_acknowledged_witness:
  "constructEvent (sample_env other_event True True) (raw_body signed) (stripe_signature signed)
      = Inr other_event \<and>
   event_type other_event \<notin> set handled_types \<and>
   webhook (sample_env other_event True True) signed [] = (received, [], [])"
proof -
  have h: "constructEvent (sample_env other_event True True) (raw_body signed) (stripe_signature signed)
      = Inr other_event"
    by (simp add: sample_env_def signed_def)
  have t: "event_type other_event \<notin> set handled_types"
    by (simp add: other_event_def handled_types_def)
  from unhandled_event_acknowledged[OF h t, of "[]"] h t show ?thesis by simp
qed

section \<open>Checkout events\<close>

text \<open>
  C6. A \<^verbatim>\<open>checkout.session.completed\<close> event that is answered 200 leaves a row for
  its session id whose status is \<^verbatim>\<open>paid\<close> when \<^verbatim>\<open>payment_status\<close> is the string
  \<^verbatim>\<open>paid\<close> and \<^verbatim>\<open>payment_not_paid\<close> for every other value, and every row stored
  under that session id has this status.
\<close>

theorem checkout_completed_status:
  assumes "constructEvent env (raw_body req) (stripe_signature req) = Inr ev"
    and "event_type ev = ''checkout.session.completed''"
    and "webhook env req db = (res, db', fx)"
    and "code res = 200"
  shows "(\<exists>x \<in> set db'.
            col_checkout_session_id x = bind_param (js_or (object_id (data_object ev)) JNull) \<and>
            col_status x =
              (if payment_status (data_object ev) = JStr ''paid'' then Paid else Payment_not_paid))
       \<and> (\<forall>x \<in> set db'.
            truthy (object_id (data_object ev)) \<and>
            col_checkout_session_id x = Some (object_id (data_object ev)) \<longrightarrow>
            col_status x =
              (if payment_status (data_object ev) = JStr ''paid'' then Paid else Payment_not_paid))"
proof -
  let ?s = "data_object ev"
  from assms have u: "upsert (clock env) (checkout_row ?s) db = Inr db'"
    by (auto simp: webhook_def dispatch_def on_checkout_completed_def server_error_def
        split: sum.splits)
  have c: "col_checkout_session_id (excluded (clock env) (checkout_row ?s))
      = bind_param (js_or (object_id ?s) JNull)"
    by (simp add: excluded_def checkout_row_def)
  have s: "status (checkout_row ?s)
      = (if payment_status ?s = JStr ''paid'' then Paid else Payment_not_paid)"
    by (simp add: checkout_row_def)
  from upsert_writes_status[OF u] show ?thesis
    unfolding on_target_def c s by (auto simp: bind_or_null collides_def)
qed

text \<open>
  The session \<^verbatim>\<open>cs_1\<close> delivered to the empty table, once with \<^verbatim>\<open>payment_status\<close>
  \<^verbatim>\<open>paid\<close> and once with \<^verbatim>\<open>unpaid\<close>.
\<close>

lemma checkout_event_first_delivery:
  "webhook (sample_env (checkout_event st) ru mu) signed []
     = (received, [excluded 1000 (checkout_row (data_object (checkout_event st)))],
        [Wrote (checkout_row (data_object (checkout_event st)))])"
  by (simp add: webhook_def dispatch_def on_checkout_completed_def sample_env_def signed_def
      checkout_event_def upsert_def upsert_with_def on_target_def)

theorem checkout_completed_status_witness:
  "(\<exists>res db' fx x. webhook (sample_env (checkout_event (JStr ''paid'')) True True) signed [] = (res, db', fx)
       \<and> code res = 200 \<and> x \<in> set db' \<and> col_checkout_session_id x = Some (JStr ''cs_1'')
       \<and> col_status x = Paid) \<and>
   (\<exists>res db' fx x. webhook (sample_env (checkout_event (JStr ''unpaid'')) True True) signed [] = (res, db', fx)
       \<and> code res = 200 \<and> x \<in> set db' \<and> col_checkout_session_id x = Some (JStr ''cs_1'')
       \<and> col_status x = Payment_not_paid)"
proof -
  have h: "\<And>st. constructEvent (sample_env (checkout_event st) True True) (raw_body signed)
      (stripe_signature signed) = Inr (checkout_event st)"
    by (simp add: sample_env_def signed_def)
  have t: "\<And>st. event_type (checkout_event st) = ''checkout.session.completed''"
    by (simp add: checkout_event_def)
  have ok: "code received = 200" by (simp add: received_def)
  have i: "\<And>st. object_id (data_object (checkout_event st)) = JStr ''cs_1''"
    and p: "\<And>st. payment_status (data_object (checkout_event st)) = st"
    by (simp_all add: checkout_event_def)
  from checkout_completed_status[OF h t checkout_event_first_delivery ok, of "JStr ''paid''"]
  have a: "\<exists>x \<in> set [excluded 1000 (checkout_row (data_object (checkout_event (JStr ''paid''))))].
      col_checkout_session_id x = Some (JStr ''cs_1'') \<and> col_status x = Paid"
    by (simp add: i p js_or_def)
  from checkout_completed_status[OF h t checkout_event_first_delivery ok, of "JStr ''unpaid''"]
  have b: "\<exists>x \<in> set [excluded 1000 (checkout_row (data_object (checkout_event (JStr ''unpaid''))))].
      col_checkout_session_id x = Some (JStr ''cs_1'') \<and> col_status x = Payment_not_paid"
    by (simp add: i p js_or_def)
  show ?thesis
    using a b ok checkout_event_first_delivery by (metis (no_types, lifting))
qed

section \<open>Fulfilment and notification\<close>


section \<open>Verification events\<close>



text \<open>
  A verification event whose id some row already holds changes nothing and is answered
  500, whichever of the two kinds it is.
\<close>

lemma verification_id_already_stored:
  assumes "truthy (object_id v)" and "x \<in> set db"
    and "col_verification_session_id x = Some (object_id v)"
  shows "on_verified env v db = (server_error, db, [])"
    and "on_requires_input env v db = (server_error, db, [])"
proof -
  have "upsert (clock env) (verified_row v) db
      = Inl (UniqueConstraint ''fulfillments.verification_session_id'')"
    using assms by (intro upsert_verification_id_taken[of _ x]) (simp_all add: verified_row_def)
  then show "on_verified env v db = (server_error, db, [])"
    by (simp add: on_verified_def)
  have "upsert (clock env) (requires_input_row v) db
      = Inl (UniqueConstraint ''fulfillments.verification_session_id'')"
    using assms
    by (intro upsert_verification_id_taken[of _ x]) (simp_all add: requires_input_row_def)
  then show "on_requires_input env v db = (server_error, db, [])"
    by (simp add: on_requires_input_def)
qed

text \<open>
  Nor is a checkout event recorded when its metadata name a verification session that
  another row already holds: the two rows of one purchase are never merged.
\<close>

lemma checkout_for_known_verification_id:
  assumes "truthy (metadata_verification_session_id s)" and "x \<in> set db"
    and "col_verification_session_id x = Some (metadata_verification_session_id s)"
    and "find (on_target (excluded (clock env) (checkout_row s))) db = None"
  shows "on_checkout_completed env s db = (server_error, db, [])"
proof -
  have "js_or (metadata_verification_session_id s) JNull = metadata_verification_session_id s"
    using assms(1) by (simp add: js_or_def)
  then have "col_verification_session_id (excluded (clock env) (checkout_row s))
      = Some (metadata_verification_session_id s)"
    using assms(1) by (simp add: excluded_def checkout_row_def bind_truthy)
  with assms(2,3) have "\<exists>x \<in> set db.
      collides (col_verification_session_id (excluded (clock env) (checkout_row s)))
        (col_verification_session_id x)"
    by (intro bexI[of _ x]) (simp_all add: collides_def)
  with assms(4) have "upsert (clock env) (checkout_row s) db
      = Inl (UniqueConstraint ''fulfillments.verification_session_id'')"
    by (simp add: upsert_def upsert_with_def Let_def)
  then show ?thesis by (simp add: on_checkout_completed_def)
qed

lemma verified_row_sample:
  "excluded t (verified_row (data_object verified_event)) =
     \<lparr> col_checkout_session_id = None, col_verification_session_id = Some (JStr ''vs_1''),
       col_customer_email = Some (JStr ''a@b.c''), col_product_id = Some (JStr ''builder-pass''),
       col_promo_code = None, col_status = Verified,
       col_payload = EventObject (data_object verified_event), col_created_at = t \<rparr>"
  by (simp add: excluded_def verified_row_def verified_event_def verified_email_def
      blank_object_def js_or_def)

text \<open>
  C1 (the code departs from it). The event \<open>verified_event\<close> on the empty table, with
  the provisioner and the mail transport up: the row is inserted as \<^verbatim>\<open>verified\<close>, the
  provisioner is called, the statement that should record \<^verbatim>\<open>fulfilled\<close> for the same
  verification session id is refused, and the answer is 500. The redelivered event is
  refused at its first statement. The later statements carry an identifier that is
  already present, and none of them updates the row.
\<close>

theorem verified_event_not_merged:
  "webhook (sample_env verified_event True True) signed []
     = (server_error, [excluded 1000 (verified_row (data_object verified_event))],
        [Wrote (verified_row (data_object verified_event)), Posted verified_post]) \<and>
   col_status (excluded 1000 (verified_row (data_object verified_event))) = Verified \<and>
   webhook (sample_env verified_event True True) signed
       [excluded 1000 (verified_row (data_object verified_event))]
     = (server_error, [excluded 1000 (verified_row (data_object verified_event))], [])"
proof -
  have ev: "constructEvent (sample_env verified_event True True) (raw_body signed)
      (stripe_signature signed) = Inr verified_event"
    by (simp add: sample_env_def signed_def)
  have ty: "event_type verified_event = ''identity.verification_session.verified''"
    by (simp add: verified_event_def)
  have ck: "clock (sample_env verified_event True True) = 1000"
    and ax: "\<And>p. axios_post (sample_env verified_event True True) p = Some sample_data"
    by (simp_all add: sample_env_def)
  have u1: "upsert 1000 (verified_row (data_object verified_event)) []
      = Inr [excluded 1000 (verified_row (data_object verified_event))]"
    by (simp add: upsert_def upsert_with_def on_target_def)
  have u2: "upsert 1000 r [excluded 1000 (verified_row (data_object verified_event))]
      = Inl (UniqueConstraint ''fulfillments.verification_session_id'')"
    if "\<not> truthy (checkout_session_id r)" "verification_session_id r = JStr ''vs_1''" for r
    using that unfolding verified_row_sample
    by (simp add: upsert_def upsert_with_def on_target_def collides_def Let_def excluded_def bind_or_null)
  have ids: "object_id (data_object verified_event) = JStr ''vs_1''"
     "verified_email (data_object verified_event) = JStr ''a@b.c''"
     "metadata_product_id (data_object verified_event) = JUndefined"
     "metadata_promo_code (data_object verified_event) = JUndefined"
    by (simp_all add: verified_event_def verified_email_def blank_object_def js_or_def)
  have p: "provisionAndWelcome (sample_env verified_event True True) (JStr ''a@b.c'') (JStr ''vs_1'')
       (JStr ''builder-pass'') JNull JNull [excluded 1000 (verified_row (data_object verified_event))]
     = (Some (UniqueConstraint ''fulfillments.verification_session_id''),
        [excluded 1000 (verified_row (data_object verified_event))], [Posted verified_post])"
    by (simp add: provisionAndWelcome_def ax ck Let_def js_or_def verified_post_def u2)
  have first: "webhook (sample_env verified_event True True) signed []
     = (server_error, [excluded 1000 (verified_row (data_object verified_event))],
        [Wrote (verified_row (data_object verified_event)), Posted verified_post])"
    by (simp add: webhook_def ev dispatch_def ty on_verified_def ck u1 ids js_or_def p)
  have again: "upsert 1000 (verified_row (data_object verified_event))
       [excluded 1000 (verified_row (data_object verified_event))]
     = Inl (UniqueConstraint ''fulfillments.verification_session_id'')"
    by (rule u2) (simp_all add: verified_row_def ids)
  have second: "webhook (sample_env verified_event True True) signed
       [excluded 1000 (verified_row (data_object verified_event))]
     = (server_error, [excluded 1000 (verified_row (data_object verified_event))], [])"
    by (simp add: webhook_def ev dispatch_def ty on_verified_def ck again)
  show ?thesis using first second by (simp add: verified_row_sample)
qed

text \<open>
  When the relay fails, the answer is 500 and no mail is sent, and the table gains at
  most the row with status \<^verbatim>\<open>verified\<close>: nothing writes \<^verbatim>\<open>fulfillment_failed\<close>.
\<close>

lemma relay_failure_on_verified:
  assumes "\<And>p. axios_post env p = None" and "on_verified env v db = (res, db', fx)"
  shows "res = server_error \<and> (\<forall>m. Mailed m \<notin> set fx) \<and>
         (db' = db \<or> db' = db @ [excluded (clock env) (verified_row v)]) \<and>
         col_status (excluded (clock env) (verified_row v)) = Verified"
proof (cases "upsert (clock env) (verified_row v) db")
  case (Inl e)
  with assms(2) show ?thesis by (auto simp: on_verified_def excluded_def verified_row_def)
next
  case (Inr s1)
  have "\<not> truthy (checkout_session_id (verified_row v))" by (simp add: verified_row_def)
  from upsert_null_key[OF this Inr]
  have s1: "s1 = db @ [excluded (clock env) (verified_row v)]" by simp
  with assms Inr show ?thesis
    by (auto simp: on_verified_def provisionAndWelcome_def excluded_def verified_row_def)
qed

text \<open>
  C4 (the code departs from it). The event \<open>verified_event\<close> on the empty table with
  the provisioner down: the answer is 500 and there is no mail, but the row of the
  verification session is left with status \<^verbatim>\<open>verified\<close>, not
  \<^verbatim>\<open>fulfillment_failed\<close>.
\<close>

theorem relay_failure_leaves_verified:
  "webhook (sample_env verified_event False True) signed []
     = (server_error, [excluded 1000 (verified_row (data_object verified_event))],
        [Wrote (verified_row (data_object verified_event)), Posted verified_post]) \<and>
   col_status (excluded 1000 (verified_row (data_object verified_event))) = Verified"
proof -
  have ev: "constructEvent (sample_env verified_event False True) (raw_body signed)
      (stripe_signature signed) = Inr verified_event"
    by (simp add: sample_env_def signed_def)
  have ty: "event_type verified_event = ''identity.verification_session.verified''"
    by (simp add: verified_event_def)
  have ck: "clock (sample_env verified_event False True) = 1000"
    and ax: "\<And>p. axios_post (sample_env verified_event False True) p = None"
    by (simp_all add: sample_env_def)
  have u1: "upsert 1000 (verified_row (data_object verified_event)) []
      = Inr [excluded 1000 (verified_row (data_object verified_event))]"
    by (simp add: upsert_def upsert_with_def on_target_def)
  have ids: "object_id (data_object verified_event) = JStr ''vs_1''"
     "verified_email (data_object verified_event) = JStr ''a@b.c''"
     "metadata_product_id (data_object verified_event) = JUndefined"
     "metadata_promo_code (data_object verified_event) = JUndefined"
    by (simp_all add: verified_event_def verified_email_def blank_object_def js_or_def)
  have p: "provisionAndWelcome (sample_env verified_event False True) (JStr ''a@b.c'') (JStr ''vs_1'')
       (JStr ''builder-pass'') JNull JNull [excluded 1000 (verified_row (data_object verified_event))]
     = (Some RelayFailed,
        [excluded 1000 (verified_row (data_object verified_event))], [Posted verified_post])"
    by (simp add: provisionAndWelcome_def ax Let_def js_or_def verified_post_def)
  have "webhook (sample_env verified_event False True) signed []
     = (server_error, [excluded 1000 (verified_row (data_object verified_event))],
        [Wrote (verified_row (data_object verified_event)), Posted verified_post])"
    by (simp add: webhook_def ev dispatch_def ty on_verified_def ck u1 ids js_or_def p)
  then show ?thesis by (simp add: verified_row_sample)
qed

section \<open>The mail step on the route\<close>




section \<open>One row per identifier\<close>

text \<open>
  Both UNIQUE constraints hold in every table the handler reaches: a statement that would
  create a second row for an identifier is turned into an update (checkout session id)
  or refused (verification session id).
\<close>

lemma map_filter_snoc:
  "List.map_filter f (xs @ [x]) = List.map_filter f xs @ (case f x of None \<Rightarrow> [] | Some v \<Rightarrow> [v])"
  by (induction xs) (auto split: option.splits)

lemma in_map_filter: "v \<in> set (List.map_filter f xs) \<longleftrightarrow> (\<exists>x \<in> set xs. f x = Some v)"
  by (induction xs) (auto split: option.splits)

lemma distinct_snoc_column:
  assumes "distinct (List.map_filter f db)" and "\<forall>x \<in> set db. \<not> collides (f y) (f x)"
  shows "distinct (List.map_filter f (db @ [y]))"
  using assms by (auto simp: map_filter_snoc in_map_filter collides_def on_target_def split: option.splits)

lemma distinct_update_column:
  assumes "distinct (List.map_filter ck db)" and "distinct (List.map_filter vs db)"
    and "\<And>x. P x \<longleftrightarrow> ck x = Some c"
    and "\<And>x y. x \<in> set db \<Longrightarrow> y \<in> set db \<Longrightarrow> P x \<Longrightarrow> \<not> P y \<Longrightarrow> \<not> collides (vs (g x)) (vs y)"
  shows "distinct (List.map_filter vs (map (\<lambda>x. if P x then g x else x) db))"
  using assms(1,2,4)
proof (induction db)
  case Nil
  then show ?case by simp
next
  case (Cons a db)
  have dck: "distinct (List.map_filter ck db)" and dvs: "distinct (List.map_filter vs db)"
    using Cons.prems(1,2) by (auto split: option.splits)
  have IH: "distinct (List.map_filter vs (map (\<lambda>x. if P x then g x else x) db))"
    using Cons.IH[OF dck dvs] Cons.prems(3) by simp
  show ?case
  proof (cases "P a")
    case True
    then have "ck a = Some c" by (simp add: assms(3))
    with Cons.prems(1) have "c \<notin> set (List.map_filter ck db)"
      by simp
    then have none: "\<forall>y \<in> set db. \<not> P y" by (auto simp: in_map_filter assms(3))
    then have same: "map (\<lambda>x. if P x then g x else x) db = db" by (induction db) auto
    have "\<forall>y \<in> set db. \<not> collides (vs (g a)) (vs y)"
      using Cons.prems(3)[of a] True none by simp
    then show ?thesis
      using True dvs
      by (auto simp: same in_map_filter collides_def on_target_def split: option.splits)
  next
    case False
    have "v \<notin> set (List.map_filter vs (map (\<lambda>x. if P x then g x else x) db))" if v: "vs a = Some v" for v
    proof
      assume "v \<in> set (List.map_filter vs (map (\<lambda>x. if P x then g x else x) db))"
      then obtain y where y: "y \<in> set db" "vs (if P y then g y else y) = Some v"
        by (auto simp: in_map_filter)
      show False
      proof (cases "P y")
        case True
        with Cons.prems(3)[of y a] y False have "\<not> collides (vs (g y)) (vs a)" by simp
        with y True v show False by (simp add: collides_def on_target_def)
      next
        case F: False
        with y have "v \<in> set (List.map_filter vs db)" by (auto simp: in_map_filter)
        with Cons.prems(2) v show False by simp
      qed
    qed
    with False IH show ?thesis by (auto split: option.splits)
  qed
qed

lemma column_unchanged:
  "(\<And>x. f (g x) = f x) \<Longrightarrow> List.map_filter f (map (\<lambda>x. if P x then g x else x) db) = List.map_filter f db"
  by (induction db) (auto split: option.splits)

lemma same_key_same_row:
  assumes "distinct (List.map_filter f db)" and "x \<in> set db" and "y \<in> set db"
    and "f x = Some c" and "f y = Some c"
  shows "x = y"
  using assms
  by (induction db) (auto simp: in_map_filter split: option.splits)

lemma upsert_keeps_unique_ids:
  assumes u: "unique_ids db" and up: "upsert now r db = Inr db'"
  shows "unique_ids db'"
proof -
  let ?ex = "excluded now r"
  let ?P = "on_target ?ex"
  from u have dck: "distinct (List.map_filter col_checkout_session_id db)"
    and dvs: "distinct (List.map_filter col_verification_session_id db)"
    by (simp_all add: unique_ids_def)
  show ?thesis
  proof (cases "find ?P db")
    case None
    with up have d: "db' = db @ [?ex]"
      and free: "\<forall>x \<in> set db. \<not> collides (col_verification_session_id ?ex) (col_verification_session_id x)"
      by (auto simp: upsert_def upsert_with_def Let_def split: if_splits)
    from None have "\<forall>x \<in> set db.
        \<not> collides (col_checkout_session_id ?ex) (col_checkout_session_id x)"
      by (simp add: find_None_iff on_target_def)
    with dck dvs free show ?thesis
      unfolding unique_ids_def d by (intro conjI distinct_snoc_column)
  next
    case (Some old)
    with up have d: "db' = map (\<lambda>x. if ?P x then do_update ?ex x else x) db"
      and free: "\<forall>x \<in> set db. \<not> ?P x \<longrightarrow>
          \<not> collides (col_verification_session_id (do_update ?ex old)) (col_verification_session_id x)"
      by (auto simp: upsert_def upsert_with_def Let_def split: if_splits)
    from Some have old: "old \<in> set db" "?P old" by (auto simp: find_Some_iff)
    then obtain c where c: "col_checkout_session_id ?ex = Some c"
      by (cases "col_checkout_session_id ?ex") (auto simp: collides_def on_target_def)
    then have P: "\<And>x. ?P x \<longleftrightarrow> col_checkout_session_id x = Some c"
      by (auto simp: collides_def on_target_def)
    have only: "x = old" if "x \<in> set db" "?P x" for x
      using same_key_same_row[OF dck that(1) old(1), of c] that(2) old(2) by (simp add: P)
    have "distinct (List.map_filter col_checkout_session_id db')"
      unfolding d using dck by (simp add: column_unchanged do_update_def)
    moreover have "distinct (List.map_filter col_verification_session_id db')"
      unfolding d
    proof (rule distinct_update_column[OF dck dvs P])
      fix x y assume "x \<in> set db" "y \<in> set db" "?P x" "\<not> ?P y"
      with only[of x] free
      show "\<not> collides (col_verification_session_id (do_update ?ex x)) (col_verification_session_id y)"
        by simp
    qed
    ultimately show ?thesis by (simp add: unique_ids_def)
  qed
qed

lemma webhook_keeps_unique_ids:
  assumes "unique_ids db" and "webhook env req db = (res, db', fx)"
  shows "unique_ids db'"
proof (cases "constructEvent env (raw_body req) (stripe_signature req)")
  case (Inl msg)
  with assms show ?thesis by (simp add: webhook_def)
next
  case (Inr ev)
  let ?o = "data_object ev"
  from assms(2) Inr have dis: "dispatch env ev db = (res, db', fx)" by (simp add: webhook_def)
  consider (c) "event_type ev = ''checkout.session.completed''"
    | (v) "event_type ev = ''identity.verification_session.verified''"
    | (i) "event_type ev = ''identity.verification_session.requires_input''"
    | (o) "event_type ev \<notin> set handled_types"
    by (auto simp: handled_types_def)
  then show ?thesis
  proof cases
    case c
    with dis have "on_checkout_completed env ?o db = (res, db', fx)" by (simp add: dispatch_def)
    with assms(1) show ?thesis
      by (auto simp: on_checkout_completed_def split: sum.splits intro: upsert_keeps_unique_ids)
  next
    case v
    with dis have h: "on_verified env ?o db = (res, db', fx)" by (simp add: dispatch_def)
    show ?thesis
    proof (cases "upsert (clock env) (verified_row ?o) db")
      case (Inl e)
      with h assms(1) show ?thesis by (simp add: on_verified_def)
    next
      case (Inr s1)
      with assms(1) have u1: "unique_ids s1" by (rule upsert_keeps_unique_ids)
      obtain e2 s2 f2 where p: "provisionAndWelcome env (verified_email ?o) (object_id ?o)
                (js_or (metadata_product_id ?o) (JStr ''builder-pass''))
                (js_or (metadata_promo_code ?o) JNull) JNull s1 = (e2, s2, f2)"
        by (metis prod_cases3)
      with h Inr have "db' = s2" by (auto simp: on_verified_def split: option.splits)
      with provisionAndWelcome_store[OF p] u1 show ?thesis
        by (auto intro: upsert_keeps_unique_ids)
    qed
  next
    case i
    with dis have "on_requires_input env ?o db = (res, db', fx)" by (simp add: dispatch_def)
    with assms(1) show ?thesis
      by (auto simp: on_requires_input_def split: sum.splits intro: upsert_keeps_unique_ids)
  next
    case o
    with dis assms(1) show ?thesis by (simp add: dispatch_def handled_types_def)
  qed
qed

lemma delivered_store_unique_ids: "unique_ids db \<Longrightarrow> unique_ids (deliver hist db)"
proof (induction hist arbitrary: db)
  case Nil
  then show ?case by simp
next
  case (Cons a hist)
  obtain env req where a: "a = (env, req)" by (cases a)
  obtain res db' fx where w: "webhook env req db = (res, db', fx)" by (metis prod_cases3)
  with Cons.prems have "unique_ids db'" by (rule webhook_keeps_unique_ids)
  then have "unique_ids (deliver hist db')" by (rule Cons.IH)
  with a w show ?case by simp
qed

lemma one_row_per_id: "unique_ids (deliver hist [])"
  by (rule delivered_store_unique_ids) (simp add: unique_ids_def)

text \<open>
  For a row object with a checkout session id the statement is idempotent: run again on
  the table it produced, at any later time, it succeeds and changes nothing. So a
  redelivered checkout event is answered 200 and leaves the table as it is.
\<close>

lemma coalesce_twice: "coalesce a (coalesce a b) = coalesce a b"
  by (simp add: coalesce_def split: option.splits)

lemma coalesce_same: "coalesce a a = a"
  by (simp add: coalesce_def split: option.splits)

lemma do_update_again:
  "do_update (excluded t' r) (do_update (excluded t r) x) = do_update (excluded t r) x"
  "do_update (excluded t' r) (excluded t r) = excluded t r"
  by (simp_all add: do_update_def excluded_def coalesce_twice coalesce_same)

lemma upsert_again:
  assumes k: "truthy (checkout_session_id r)" and u: "unique_ids db"
    and up: "upsert t r db = Inr db1"
  shows "upsert t' r db1 = Inr db1"
proof -
  let ?P = "on_target (excluded t r)"
  have P: "on_target (excluded t' r) = ?P"
    by (simp add: on_target_def excluded_def fun_eq_iff)
  from u up have u1: "unique_ids db1" by (rule upsert_keeps_unique_ids)
  have fixed: "do_update (excluded t' r) x = x" if "x \<in> set db1" "?P x" for x
  proof -
    from upsert_cases[OF up[unfolded upsert_def]] show ?thesis
    proof
      assume a: "find ?P db = None \<and> db1 = db @ [excluded t r]"
      then have "\<forall>y \<in> set db. \<not> ?P y" by (simp add: find_None_iff)
      with a that have "x = excluded t r" by auto
      then show ?thesis by (simp add: do_update_again)
    next
      assume "\<exists>old. find ?P db = Some old \<and>
          db1 = map (\<lambda>x. if ?P x then do_update (excluded t r) x else x) db"
      then have "db1 = map (\<lambda>x. if ?P x then do_update (excluded t r) x else x) db" by blast
      with that obtain y where "y \<in> set db" "x = (if ?P y then do_update (excluded t r) y else y)"
        by auto
      moreover have "?P (do_update (excluded t r) y) = ?P y" for y
        by (simp add: on_target_def do_update_def)
      ultimately have "x = do_update (excluded t r) y" using that(2) by (auto split: if_splits)
      then show ?thesis by (simp add: do_update_again)
    qed
  qed
  have same: "map (\<lambda>x. if ?P x then do_update (excluded t' r) x else x) db1 = db1"
    using fixed by (simp add: map_idI)
  from upsert_writes_status[OF up] obtain x0 where "x0 \<in> set db1"
    "col_checkout_session_id x0 = col_checkout_session_id (excluded t r)"
    by blast
  then have "\<exists>x \<in> set db1. ?P x"
    using k by (intro bexI[of _ x0]) (simp_all add: on_target_def collides_def excluded_checkout)
  then obtain old where f: "find ?P db1 = Some old"
    by (cases "find ?P db1") (auto simp: find_None_iff)
  then have old: "old \<in> set db1" "?P old" by (auto simp: find_Some_iff)
  have free: "\<not> (\<exists>x \<in> set db1. \<not> ?P x \<and>
      collides (col_verification_session_id (do_update (excluded t' r) old))
        (col_verification_session_id x))"
  proof
    assume "\<exists>x \<in> set db1. \<not> ?P x \<and>
      collides (col_verification_session_id (do_update (excluded t' r) old))
        (col_verification_session_id x)"
    then obtain x where x: "x \<in> set db1" "\<not> ?P x"
      "collides (col_verification_session_id old) (col_verification_session_id x)"
      using fixed[OF old] by auto
    then obtain v where "col_verification_session_id old = Some v"
      "col_verification_session_id x = Some v"
      by (cases "col_verification_session_id old") (auto simp: collides_def)
    with u1 old(1) x(1) have "old = x"
      by (intro same_key_same_row[of col_verification_session_id db1 old x v])
         (simp_all add: unique_ids_def)
    with old(2) x(2) show False by simp
  qed
  show ?thesis
    using f free same by (simp add: upsert_def upsert_with_def Let_def P)
qed

lemma checkout_redelivery_changes_nothing:
  assumes "truthy (object_id s)" and "unique_ids db"
    and "on_checkout_completed env s db = (received, db1, fx)"
  shows "on_checkout_completed env' s db1 = (received, db1, [Wrote (checkout_row s)])"
proof -
  from assms(3) have "upsert (clock env) (checkout_row s) db = Inr db1"
    by (auto simp: on_checkout_completed_def received_def server_error_def split: sum.splits)
  with assms(1,2) have "upsert (clock env') (checkout_row s) db1 = Inr db1"
    by (intro upsert_again[of _ db "clock env"]) (simp_all add: checkout_row_def)
  then show ?thesis by (simp add: on_checkout_completed_def)
qed

section \<open>Status over time\<close>









text \<open>
  Over any number of requests. The relation \<open>forward\<close> is transitive, and so is
  \<open>row_settled\<close>; in a table whose rows with a checkout session id are all in the first
  stage, one request takes every row to a settled successor, and so does every sequence
  of requests.
\<close>

lemma forward_trans: "forward a b \<Longrightarrow> forward b c \<Longrightarrow> forward a c"
  by (cases a; cases b; cases c) (simp_all add: forward_def)







text \<open>The table after \<open>hist\<close> and then \<open>later\<close> is the table after both in a row.\<close>

lemma deliver_append: "deliver (hist @ later) db = deliver later (deliver hist db)"
  by (induction hist arbitrary: db) auto






section \<open>Health counters\<close>

text \<open>
  C9. On the empty table the query of the health endpoint yields NULL in every column:
  \<^verbatim>\<open>SUM\<close> has nothing to add up. The response then carries
  \<^verbatim>\<open>fulfilled: null\<close>, not the number of fulfilled rows, which is 0.
\<close>

theorem health_on_empty_table:
  "health_counts (api_health now []) = \<lparr> verified = None, fulfilled = None, events_24h = None \<rparr>"
  by (simp add: api_health_def health_query_def sql_sum_def)

text \<open>On a table with at least one row the counters are the numbers of rows.\<close>

lemma sum_indicator: "sum_list (map (\<lambda>x. if P x then 1 else 0) xs) = int (length (filter P xs))"
  by (induction xs) auto

lemma health_counts_nonempty:
  assumes "db \<noteq> []"
  shows "fulfilled (health_counts (api_health now db))
           = Some (int (length (filter (\<lambda>x. col_status x = Fulfilled) db)))"
    and "verified (health_counts (api_health now db))
           = Some (int (length (filter (\<lambda>x. col_status x = Verified) db)))"
  using assms by (simp_all add: api_health_def health_query_def sql_sum_def sum_indicator)

section \<open>The second handler file against the first\<close>

text \<open>
  The update clause of the second file keeps nothing: an absent \<^verbatim>\<open>promo_code\<close> erases
  the stored one.
\<close>

lemma second_file_overwrites:
  "upsert_v2 2 (promo_row JNull) [excluded 1 (promo_row (JStr ''X''))]
     = Inr [do_update_v2 (excluded 2 (promo_row JNull)) (excluded 1 (promo_row (JStr ''X'')))]"
  "col_promo_code (excluded 1 (promo_row (JStr ''X''))) = Some (JStr ''X'')"
  "col_promo_code (do_update_v2 (excluded 2 (promo_row JNull)) (excluded 1 (promo_row (JStr ''X''))))
     = None"
  by (simp_all add: upsert_v2_def upsert_with_def on_target_def Let_def excluded_def promo_row_def
      collides_def js_or_def do_update_v2_def)

text \<open>
  Its checkout case records \<^verbatim>\<open>paid\<close> whatever \<^verbatim>\<open>payment_status\<close> says.
\<close>

lemma second_file_checkout_always_paid:
  assumes "constructEvent env (raw_body req) (stripe_signature req) = Inr ev"
    and "event_type ev = ''checkout.session.completed''"
    and "webhook_v2 env req db = (res, db', fx)"
    and "code res = 200"
  shows "\<exists>x \<in> set db'.
           col_checkout_session_id x = bind_param (js_or (object_id (data_object ev)) JNull) \<and>
           col_status x = Paid"
proof -
  let ?s = "data_object ev"
  from assms have u: "upsert_with do_update_v2 (clock env) (checkout_row_v2 ?s) db = Inr db'"
    by (auto simp: webhook_v2_def write_v2_def upsert_v2_def server_error_def split: sum.splits)
  have "\<exists>x \<in> set db'.
      col_checkout_session_id x = col_checkout_session_id (excluded (clock env) (checkout_row_v2 ?s))
      \<and> col_status x = status (checkout_row_v2 ?s)"
    using upsert_with_writes_status[OF u] by (simp add: do_update_v2_def)
  then show ?thesis by (simp add: excluded_def checkout_row_v2_def)
qed

text \<open>Signature failures and unhandled events are answered as in the first file.\<close>

lemma second_file_invalid_signature:
  "constructEvent env (raw_body req) (stripe_signature req) = Inl msg \<Longrightarrow>
   webhook_v2 env req db = (invalid_signature, db, [])"
  by (simp add: webhook_v2_def)

lemma second_file_unhandled_event:
  "constructEvent env (raw_body req) (stripe_signature req) = Inr ev \<Longrightarrow>
   event_type ev \<notin> set handled_types \<Longrightarrow>
   webhook_v2 env req db = (received, db, [])"
  by (simp add: webhook_v2_def handled_types_def)

end
